theory Spec2Isabelle
  imports Complex_Main "HOL-Library.Multiset"
begin

section \<open>JavaScript numbers\<close>

text \<open>
  The program computes with JavaScript numbers. They are modelled as the reals extended
  with \<open>NaN\<close> and the two infinities; arithmetic on finite values is exact (the binary
  rounding of IEEE doubles and the sign of zero are not represented).
\<close>

datatype jsnum = NaN | PosInf | NegInf | Fin real

fun js_neg :: "jsnum \<Rightarrow> jsnum" where
  "js_neg NaN = NaN"
| "js_neg PosInf = NegInf"
| "js_neg NegInf = PosInf"
| "js_neg (Fin x) = Fin (- x)"

fun js_add :: "jsnum \<Rightarrow> jsnum \<Rightarrow> jsnum" where
  "js_add (Fin x) (Fin y) = Fin (x + y)"
| "js_add NaN b = NaN"
| "js_add a NaN = NaN"
| "js_add PosInf NegInf = NaN"
| "js_add NegInf PosInf = NaN"
| "js_add PosInf b = PosInf"
| "js_add a PosInf = PosInf"
| "js_add NegInf b = NegInf"
| "js_add a NegInf = NegInf"

definition js_sub :: "jsnum \<Rightarrow> jsnum \<Rightarrow> jsnum" where
  "js_sub a b = js_add a (js_neg b)"

fun js_div :: "jsnum \<Rightarrow> jsnum \<Rightarrow> jsnum" where
  "js_div (Fin x) (Fin y) =
     (if y = 0 then (if x = 0 then NaN else if 0 < x then PosInf else NegInf)
      else Fin (x / y))"
| "js_div NaN b = NaN"
| "js_div a NaN = NaN"
| "js_div (Fin x) b = Fin 0"
| "js_div PosInf (Fin y) = (if y < 0 then NegInf else PosInf)"
| "js_div NegInf (Fin y) = (if y < 0 then PosInf else NegInf)"
| "js_div a b = NaN"

fun js_abs :: "jsnum \<Rightarrow> jsnum" where
  "js_abs NaN = NaN"
| "js_abs PosInf = PosInf"
| "js_abs NegInf = PosInf"
| "js_abs (Fin x) = Fin \<bar>x\<bar>"

text \<open>\<open>a < b\<close>: false as soon as one side is \<open>NaN\<close>.\<close>

fun js_lt :: "jsnum \<Rightarrow> jsnum \<Rightarrow> bool" where
  "js_lt (Fin x) (Fin y) = (x < y)"
| "js_lt NaN b = False"
| "js_lt a NaN = False"
| "js_lt PosInf b = False"
| "js_lt a NegInf = False"
| "js_lt a PosInf = True"
| "js_lt NegInf b = True"

text \<open>\<open>a <= b\<close>, used to state monotonicity.\<close>

definition js_le :: "jsnum \<Rightarrow> jsnum \<Rightarrow> bool" where
  "js_le a b = (a \<noteq> NaN \<and> b \<noteq> NaN \<and> (a = b \<or> js_lt a b))"

text \<open>\<open>a !== b\<close> on numbers: \<open>NaN\<close> differs from everything, itself included.\<close>

definition js_strict_neq :: "jsnum \<Rightarrow> jsnum \<Rightarrow> bool" where
  "js_strict_neq a b = (a = NaN \<or> b = NaN \<or> a \<noteq> b)"

subsection \<open>\<open>parseFloat\<close>\<close>

text \<open>
  \<open>parseFloat\<close> skips leading white space and reads the longest prefix that is a decimal
  literal: an optional sign, then \<open>Infinity\<close> or digits with an optional fraction and an
  optional exponent. When there is no such prefix the result is \<open>NaN\<close>. Strings are
  ASCII here.
\<close>

definition is_digit :: "char \<Rightarrow> bool" where
  "is_digit c = (48 \<le> (of_char c :: nat) \<and> (of_char c :: nat) \<le> 57)"

definition is_white :: "char \<Rightarrow> bool" where
  "is_white c = ((of_char c :: nat) \<in> {9, 10, 11, 12, 13, 32})"

definition digits_val :: "string \<Rightarrow> nat" where
  "digits_val ds = foldl (\<lambda>n c. 10 * n + ((of_char c :: nat) - 48)) 0 ds"

definition scale10 :: "real \<Rightarrow> int \<Rightarrow> real" where
  "scale10 m e = (if 0 \<le> e then m * 10 ^ nat e else m / 10 ^ nat (- e))"

definition exponentPart :: "string \<Rightarrow> int" where
  "exponentPart s =
     (case s of
        [] \<Rightarrow> 0
      | c # r \<Rightarrow>
          if c = CHR ''e'' \<or> c = CHR ''E'' then
            (case r of
               [] \<Rightarrow> 0
             | d # r' \<Rightarrow>
                 if d = CHR ''-'' then - int (digits_val (takeWhile is_digit r'))
                 else if d = CHR ''+'' then int (digits_val (takeWhile is_digit r'))
                 else int (digits_val (takeWhile is_digit r)))
          else 0)"

definition strUnsignedDecimal :: "string \<Rightarrow> jsnum" where
  "strUnsignedDecimal s =
     (let ip = takeWhile is_digit s;
          r1 = dropWhile is_digit s;
          has_dot = (r1 \<noteq> [] \<and> hd r1 = CHR ''.'');
          fp = (if has_dot then takeWhile is_digit (tl r1) else []);
          r2 = (if has_dot then dropWhile is_digit (tl r1) else r1)
      in if ip = [] \<and> fp = [] then NaN
         else Fin (scale10 (real (digits_val ip) + real (digits_val fp) / 10 ^ length fp)
                     (exponentPart r2)))"

definition strUnsigned :: "string \<Rightarrow> jsnum" where
  "strUnsigned s = (if take 8 s = ''Infinity'' then PosInf else strUnsignedDecimal s)"

definition parseFloat :: "string \<Rightarrow> jsnum" where
  "parseFloat s =
     (case dropWhile is_white s of
        [] \<Rightarrow> NaN
      | c # r \<Rightarrow>
          if c = CHR ''-'' then js_neg (strUnsigned r)
          else if c = CHR ''+'' then strUnsigned r
          else strUnsigned (c # r))"

section \<open>Order book materializer: \<open>convertOrderBook\<close>\<close>

record HyperLiquidOrder =
  order_px :: string
  order_sz :: string

record HyperLiquidOrderBook =
  book_coin :: string
  levels :: "HyperLiquidOrder list \<times> HyperLiquidOrder list"
  book_time :: int

record DepthRow =
  price :: jsnum
  size_row :: jsnum
  total :: jsnum

record ConvertedOrderBook =
  bids :: "DepthRow list"
  asks :: "DepthRow list"
  midPrice :: jsnum

text \<open>
  \<open>formatOrders\<close>: \<open>orders.map\<close> with the captured variable \<open>runningTotal\<close>, which starts
  at 0 and is increased by each level's size before the row is built.
\<close>

fun formatOrders_from :: "jsnum \<Rightarrow> HyperLiquidOrder list \<Rightarrow> DepthRow list" where
  "formatOrders_from runningTotal [] = []"
| "formatOrders_from runningTotal (order # orders) =
     (let runningTotal' = js_add runningTotal (parseFloat (order_sz order))
      in \<lparr>price = parseFloat (order_px order),
          size_row = parseFloat (order_sz order),
          total = runningTotal'\<rparr> # formatOrders_from runningTotal' orders)"

definition formatOrders :: "HyperLiquidOrder list \<Rightarrow> DepthRow list" where
  "formatOrders orders = formatOrders_from (Fin 0) orders"

text \<open>The parameter \<open>precision\<close> is accepted and never read, as in the source.\<close>

definition convertOrderBook :: "HyperLiquidOrderBook \<Rightarrow> jsnum \<Rightarrow> ConvertedOrderBook" where
  "convertOrderBook hyperliquidOrderBook precision =
     (case levels hyperliquidOrderBook of
        (bs, as) \<Rightarrow>
          \<lparr>bids = formatOrders bs,
           asks = formatOrders as,
           midPrice =
             (if length bs > 0 \<and> length as > 0
              then js_div (js_add (parseFloat (order_px (bs ! 0)))
                                  (parseFloat (order_px (as ! 0)))) (Fin 2)
              else Fin 0)\<rparr>)"

section \<open>Trade reconstructor: \<open>processCompletedTrades\<close>\<close>

subsection \<open>Data\<close>

text \<open>\<open>side: 'B' | 'A'\<close> (B = buy, A = sell).\<close>

datatype side = SideB | SideA

text \<open>Time values are integers (milliseconds since the epoch).\<close>

record HyperLiquidUserFill =
  coin :: string
  px :: string
  sz :: string
  side :: side
  time :: int
  startPosition :: string
  dir :: string
  closedPnl :: string
  hash :: string
  oid :: int
  crossed :: bool
  fee :: string

datatype direction = long | short

text \<open>
  An element of \<open>completedTrades\<close>. The opening time and the duration are stored as
  display strings; the record has no numeric time field.
\<close>

record CompletedTrade =
  trade_coin :: string
  direction :: direction
  openingTime :: string
  duration :: string
  realizedPnL :: jsnum

text \<open>
  The two operations of the platform's \<open>Date\<close> that the function calls:
  \<open>new Date(t).toLocaleString()\<close>, which depends on the locale and the time zone of the
  host, and \<open>new Date(s).getTime()\<close>, which is \<open>NaN\<close> (here \<open>None\<close>) when the host
  cannot parse \<open>s\<close>.
\<close>

record date_env =
  toLocaleString :: "int \<Rightarrow> string"
  parseDate :: "string \<Rightarrow> int option"

text \<open>The four variables of the per-coin loop.\<close>

record position =
  positionSize :: jsnum
  openTime :: "int option"
  totalPnL :: jsnum
  positionDirection :: "direction option"

definition initialPosition :: position where
  "initialPosition =
     \<lparr>positionSize = Fin 0, openTime = None, totalPnL = Fin 0, positionDirection = None\<rparr>"

subsection \<open>Printing integers\<close>

text \<open>
  The numbers interpolated into the duration string are integers; below \<open>10^21\<close> in
  magnitude JavaScript prints them in plain decimal.
\<close>

fun nat_to_string :: "nat \<Rightarrow> string" where
  "nat_to_string n =
     (if n < 10 then [''0123456789'' ! n]
      else nat_to_string (n div 10) @ [''0123456789'' ! (n mod 10)])"

definition int_to_string :: "int \<Rightarrow> string" where
  "int_to_string i = (if i < 0 then CHR ''-'' # nat_to_string (nat (- i)) else nat_to_string (nat i))"

text \<open>\<open>a % b\<close>: the remainder has the sign of the dividend.\<close>

definition js_rem :: "int \<Rightarrow> int \<Rightarrow> int" where
  "js_rem a b = sgn a * (\<bar>a\<bar> mod \<bar>b\<bar>)"

subsection \<open>Grouping the fills by coin\<close>

text \<open>
  \<open>coinMap\<close> is a \<open>Map\<close>, which iterates in insertion order: an association list whose
  keys are the coins in order of first appearance.
\<close>

type_synonym coin_map = "(string \<times> HyperLiquidUserFill list) list"

definition map_has :: "coin_map \<Rightarrow> string \<Rightarrow> bool" where
  "map_has m k = (k \<in> fst ` set m)"

definition map_push :: "coin_map \<Rightarrow> string \<Rightarrow> HyperLiquidUserFill \<Rightarrow> coin_map" where
  "map_push m k v = map (\<lambda>(c, fs). if c = k then (c, fs @ [v]) else (c, fs)) m"

definition coinMap_add :: "coin_map \<Rightarrow> HyperLiquidUserFill \<Rightarrow> coin_map" where
  "coinMap_add m fill =
     map_push (if \<not> map_has m (coin fill) then m @ [(coin fill, [])] else m) (coin fill) fill"

definition buildCoinMap :: "HyperLiquidUserFill list \<Rightarrow> coin_map" where
  "buildCoinMap fills = foldl coinMap_add [] fills"

subsection \<open>The scan of one coin\<close>

text \<open>The three constants computed from the fill at the head of the loop body.\<close>

definition fillSize :: "HyperLiquidUserFill \<Rightarrow> jsnum" where
  "fillSize fill = parseFloat (sz fill)"

text \<open>\<open>parseFloat(fill.closedPnl || '0')\<close>: the empty string is falsy.\<close>

definition fillClosedPnl :: "HyperLiquidUserFill \<Rightarrow> jsnum" where
  "fillClosedPnl fill = parseFloat (if closedPnl fill = [] then ''0'' else closedPnl fill)"

definition isLong :: "HyperLiquidUserFill \<Rightarrow> bool" where
  "isLong fill = (side fill = SideB)"

text \<open>The loop body up to and including \<open>totalPnL += closedPnl\<close>.\<close>

definition applyFill :: "position \<Rightarrow> HyperLiquidUserFill \<Rightarrow> position" where
  "applyFill p fill =
     (let positionDirection' =
            (case positionDirection p of
               None \<Rightarrow> Some (if isLong fill then long else short)
             | Some d \<Rightarrow> Some d);
          positionSize' =
            (if isLong fill then js_add (positionSize p) (fillSize fill)
             else js_sub (positionSize p) (fillSize fill));
          openTime' =
            (if openTime p = None \<and> js_strict_neq positionSize' (Fin 0)
             then Some (time fill) else openTime p)
      in \<lparr>positionSize = positionSize', openTime = openTime',
          totalPnL = js_add (totalPnL p) (fillClosedPnl fill),
          positionDirection = positionDirection'\<rparr>)"

text \<open>\<open>openTime !== null && Math.abs(positionSize) < 0.0001\<close>\<close>

definition positionClosed :: "position \<Rightarrow> bool" where
  "positionClosed p = (openTime p \<noteq> None \<and> js_lt (js_abs (positionSize p)) (Fin (1 / 10000)))"

definition formatDuration :: "int \<Rightarrow> string" where
  "formatDuration d =
     (let durationHours = d div (1000 * 60 * 60);
          durationMinutes = js_rem d (1000 * 60 * 60) div (1000 * 60)
      in int_to_string durationHours @ ''h '' @ int_to_string durationMinutes @ ''m'')"

text \<open>
  The object pushed when the position closes. It is built only where \<open>openTime\<close> and
  \<open>positionDirection\<close> are set, so \<open>the\<close> is applied to \<open>Some\<close> values only.
\<close>

definition closeTrade ::
  "date_env \<Rightarrow> string \<Rightarrow> position \<Rightarrow> HyperLiquidUserFill \<Rightarrow> CompletedTrade" where
  "closeTrade env c p fill =
     \<lparr>trade_coin = c,
      direction = the (positionDirection p),
      openingTime = toLocaleString env (the (openTime p)),
      duration = formatDuration (time fill - the (openTime p)),
      realizedPnL = totalPnL p\<rparr>"

text \<open>"Reset for next position": \<open>positionSize\<close> is not among the variables reset.\<close>

definition resetPosition :: "position \<Rightarrow> position" where
  "resetPosition p = p\<lparr>openTime := None, totalPnL := Fin 0, positionDirection := None\<rparr>"

definition processFill ::
  "date_env \<Rightarrow> string \<Rightarrow> position \<times> CompletedTrade list \<Rightarrow> HyperLiquidUserFill
     \<Rightarrow> position \<times> CompletedTrade list" where
  "processFill env c st fill =
     (let p = applyFill (fst st) fill
      in if positionClosed p
         then (resetPosition p, snd st @ [closeTrade env c p fill])
         else (p, snd st))"

text \<open>
  One iteration of \<open>coinMap.forEach\<close>: the coin's fills are sorted by time (a stable sort,
  so fills with equal times keep their input order) and scanned from the initial position.
\<close>

definition processCoin ::
  "date_env \<Rightarrow> CompletedTrade list \<Rightarrow> string \<times> HyperLiquidUserFill list \<Rightarrow> CompletedTrade list"
  where
  "processCoin env completedTrades entry =
     snd (foldl (processFill env (fst entry)) (initialPosition, completedTrades)
            (sort_key time (snd entry)))"

subsection \<open>The final sort\<close>

text \<open>
  \<open>Array.prototype.sort\<close> with a comparator is stable: an element moves in front of an
  earlier one only when the comparator puts it strictly before. A comparator result of
  \<open>NaN\<close> counts as 0. With a comparator that is not a consistent order the standard leaves
  the result to the implementation; the insertion sort below is then one possible result.
\<close>

fun insort_cmp :: "('a \<Rightarrow> 'a \<Rightarrow> int) \<Rightarrow> 'a \<Rightarrow> 'a list \<Rightarrow> 'a list" where
  "insort_cmp cmp x [] = [x]"
| "insort_cmp cmp x (y # ys) = (if cmp x y \<le> 0 then x # y # ys else y # insort_cmp cmp x ys)"

definition sort_cmp :: "('a \<Rightarrow> 'a \<Rightarrow> int) \<Rightarrow> 'a list \<Rightarrow> 'a list" where
  "sort_cmp cmp xs = foldr (insort_cmp cmp) xs []"

text \<open>\<open>(a, b) => new Date(b.openingTime).getTime() - new Date(a.openingTime).getTime()\<close>\<close>

definition compareOpeningTime :: "date_env \<Rightarrow> CompletedTrade \<Rightarrow> CompletedTrade \<Rightarrow> int" where
  "compareOpeningTime env a b =
     (case (parseDate env (openingTime b), parseDate env (openingTime a)) of
        (Some tb, Some ta) \<Rightarrow> tb - ta
      | _ \<Rightarrow> 0)"

subsection \<open>The function\<close>

definition processCompletedTrades ::
  "date_env \<Rightarrow> HyperLiquidUserFill list \<Rightarrow> CompletedTrade list" where
  "processCompletedTrades env fills =
     (if length fills = 0 then []
      else sort_cmp (compareOpeningTime env) (foldl (processCoin env) [] (buildCoinMap fills)))"

section \<open>A host: the en-US locale in the UTC time zone\<close>

text \<open>
  A concrete \<open>date_env\<close>, used to evaluate the function on concrete inputs. It renders a
  time value as \<open>M/D/YYYY, h:mm:ss AM\<close> (or \<open>PM\<close>), which is what \<open>toLocaleString()\<close> gives
  under the en-US locale in the UTC time zone (with a plain space before the day period),
  and parses such a string back as a time of the same zone. The rendering drops the
  milliseconds, as the default format does under every locale. The model covers time
  values from the epoch to the largest valid \<open>Date\<close> (elsewhere it answers
  \<open>Invalid Date\<close>), and the parser covers the strings of this one format.
\<close>

text \<open>Day number since 1970-01-01 to (year, month, day) in the Gregorian calendar.\<close>

definition civil_from_days :: "int \<Rightarrow> int \<times> int \<times> int" where
  "civil_from_days z0 =
     (let z = z0 + 719468;
          era = z div 146097;
          doe = z - era * 146097;
          yoe = (doe - doe div 1460 + doe div 36524 - doe div 146096) div 365;
          doy = doe - (365 * yoe + yoe div 4 - yoe div 100);
          mp = (5 * doy + 2) div 153;
          d = doy - (153 * mp + 2) div 5 + 1;
          m = (if mp < 10 then mp + 3 else mp - 9);
          y = yoe + era * 400 + (if m \<le> 2 then 1 else 0)
      in (y, m, d))"

definition days_from_civil :: "int \<Rightarrow> int \<Rightarrow> int \<Rightarrow> int" where
  "days_from_civil y0 m d =
     (let y = (if m \<le> 2 then y0 - 1 else y0);
          era = y div 400;
          yoe = y - era * 400;
          doy = (153 * (if m > 2 then m - 3 else m + 9) + 2) div 5 + d - 1;
          doe = yoe * 365 + yoe div 4 - yoe div 100 + doy
      in era * 146097 + doe - 719468)"

definition pad2 :: "int \<Rightarrow> string" where
  "pad2 n = (if n < 10 then CHR ''0'' # int_to_string n else int_to_string n)"

definition enUS_toLocaleString :: "int \<Rightarrow> string" where
  "enUS_toLocaleString t =
     (if t < 0 \<or> 8640000000000000 < t then ''Invalid Date''
      else
        (let secs = t div 1000;
             sod = secs mod 86400;
             h = sod div 3600
         in case civil_from_days (secs div 86400) of
              (y, m, d) \<Rightarrow>
                int_to_string m @ ''/'' @ int_to_string d @ ''/'' @ int_to_string y @ '', '' @
                int_to_string (if h mod 12 = 0 then 12 else h mod 12) @ '':'' @
                pad2 (sod mod 3600 div 60) @ '':'' @ pad2 (sod mod 60) @
                (if h < 12 then '' AM'' else '' PM'')))"

definition read_nat :: "string \<Rightarrow> (int \<times> string) option" where
  "read_nat s =
     (if takeWhile is_digit s = [] then None
      else Some (int (digits_val (takeWhile is_digit s)), dropWhile is_digit s))"

definition skip_str :: "string \<Rightarrow> string \<Rightarrow> string option" where
  "skip_str pre s = (if take (length pre) s = pre then Some (drop (length pre) s) else None)"

definition enUS_parseDate :: "string \<Rightarrow> int option" where
  "enUS_parseDate s =
     Option.bind (read_nat s) (\<lambda>(m, s1).
     Option.bind (skip_str ''/'' s1) (\<lambda>s2.
     Option.bind (read_nat s2) (\<lambda>(d, s3).
     Option.bind (skip_str ''/'' s3) (\<lambda>s4.
     Option.bind (read_nat s4) (\<lambda>(y, s5).
     Option.bind (skip_str '', '' s5) (\<lambda>s6.
     Option.bind (read_nat s6) (\<lambda>(h, s7).
     Option.bind (skip_str '':'' s7) (\<lambda>s8.
     Option.bind (read_nat s8) (\<lambda>(mi, s9).
     Option.bind (skip_str '':'' s9) (\<lambda>s10.
     Option.bind (read_nat s10) (\<lambda>(sec, s11).
       if (s11 = '' AM'' \<or> s11 = '' PM'') \<and> 1 \<le> m \<and> m \<le> 12 \<and> 1 \<le> d \<and> d \<le> 31
          \<and> 1 \<le> h \<and> h \<le> 12 \<and> mi < 60 \<and> sec < 60
       then Some ((((days_from_civil y m d * 24
                     + (h mod 12 + (if s11 = '' PM'' then 12 else 0))) * 60 + mi) * 60 + sec)
                  * 1000)
       else None)))))))))))"

definition enUS_UTC :: date_env where
  "enUS_UTC = \<lparr>toLocaleString = enUS_toLocaleString, parseDate = enUS_parseDate\<rparr>"

subsection \<open>Sample inputs\<close>

text \<open>A fill with the five fields the reconstructor reads; the other fields are fixed.\<close>

definition mkFill :: "string \<Rightarrow> side \<Rightarrow> string \<Rightarrow> int \<Rightarrow> string \<Rightarrow> HyperLiquidUserFill" where
  "mkFill c s size_str t pnl =
     \<lparr>coin = c, px = ''1'', sz = size_str, side = s, time = t, startPosition = ''0'',
      dir = [], closedPnl = pnl, hash = [], oid = 0, crossed = False, fee = ''0''\<rparr>"

definition book1 :: HyperLiquidOrderBook where
  "book1 =
     \<lparr>book_coin = ''X'',
      levels =
        ([\<lparr>order_px = ''29.40'', order_sz = ''1.5''\<rparr>,
          \<lparr>order_px = ''29.30'', order_sz = ''2''\<rparr>,
          \<lparr>order_px = ''29.20'', order_sz = ''0.5''\<rparr>],
         [\<lparr>order_px = ''29.50'', order_sz = ''3''\<rparr>,
          \<lparr>order_px = ''29.60'', order_sz = ''1''\<rparr>]),
      book_time = 0\<rparr>"

definition open_position_fills :: "HyperLiquidUserFill list" where
  "open_position_fills =
     [mkFill ''X'' SideB ''0.0003'' 2000 ''0'', mkFill ''Y'' SideA ''3'' 500 ''0'',
      mkFill ''X'' SideB ''0.3'' 0 ''0'', mkFill ''X'' SideA ''0.3'' 1000 ''5.0'']"


definition two_coin_fills :: "HyperLiquidUserFill list" where
  "two_coin_fills = [mkFill ''X'' SideB ''1'' 0 ''0'', mkFill ''X'' SideA ''1'' 1000 ''5.0'',
             mkFill ''Y'' SideA ''1'' 2000 ''0'', mkFill ''Y'' SideB ''1'' 5000 ''7'']"

definition sample_fills :: "HyperLiquidUserFill list" where
  "sample_fills = [mkFill ''X'' SideB ''1'' 0 ''0'', mkFill ''X'' SideA ''1'' 1000 ''5.0'']"

definition sample_fills_other :: "HyperLiquidUserFill list" where
  "sample_fills_other =
     map (\<lambda>fill. fill\<lparr>px := ''29.45'', startPosition := ''3'', dir := ''Close Long'',
                       hash := ''0xabc'', oid := 7, crossed := True, fee := ''0.5''\<rparr>) sample_fills"

section \<open>The scan as a list function\<close>

text \<open>
  Two functions used to reason about the inner loop: the trades pushed while scanning a
  list of fills from a given position, and the position afterwards. Lemma \<open>scan_eq\<close>
  shows that together they are the fold of \<open>processFill\<close>.
\<close>

fun emitted ::
  "date_env \<Rightarrow> string \<Rightarrow> position \<Rightarrow> HyperLiquidUserFill list \<Rightarrow> CompletedTrade list" where
  "emitted env c p [] = []"
| "emitted env c p (fill # fills) =
     (if positionClosed (applyFill p fill)
      then closeTrade env c (applyFill p fill) fill
             # emitted env c (resetPosition (applyFill p fill)) fills
      else emitted env c (applyFill p fill) fills)"

fun finalPosition :: "position \<Rightarrow> HyperLiquidUserFill list \<Rightarrow> position" where
  "finalPosition p [] = p"
| "finalPosition p (fill # fills) =
     finalPosition (if positionClosed (applyFill p fill) then resetPosition (applyFill p fill)
                    else applyFill p fill) fills"

text \<open>A fill with the fields that the function never reads set to fixed values.\<close>

definition readFields :: "HyperLiquidUserFill \<Rightarrow> HyperLiquidUserFill" where
  "readFields fill =
     fill\<lparr>px := [], startPosition := [], dir := [], hash := [], oid := 0, crossed := False,
          fee := []\<rparr>"

section \<open>The arithmetic of the host\<close>

text \<open>
  The functions above add and subtract sizes as exact reals and read decimal strings as
  exact values, where JavaScript computes on IEEE 754 doubles. The reconstructor is
  therefore written once more below with the arithmetic as a parameter: addition,
  subtraction, \<open>parseFloat\<close> and the value of the literal \<open>0.0001\<close>. Comparison, absolute
  value and the test against 0 are exact on doubles and are kept as they are.
\<close>

record arith =
  num_add :: "jsnum \<Rightarrow> jsnum \<Rightarrow> jsnum"
  num_sub :: "jsnum \<Rightarrow> jsnum \<Rightarrow> jsnum"
  num_parse :: "string \<Rightarrow> jsnum"
  num_epsilon :: jsnum

text \<open>The exact arithmetic of the first model.\<close>

definition exact_arith :: arith where
  "exact_arith =
     \<lparr>num_add = js_add, num_sub = js_sub, num_parse = parseFloat,
      num_epsilon = Fin (1 / 10000)\<rparr>"

subsection \<open>IEEE 754 double precision\<close>

text \<open>Number of binary digits of a positive integer.\<close>

function bit_length :: "int \<Rightarrow> int" where
  "bit_length n = (if n \<le> 0 then 0 else 1 + bit_length (n div 2))"
  by pat_completeness auto
termination
  by (relation "measure nat") auto

text \<open>The greatest \<open>e\<close> with \<open>2^e \<le> a\<close>, for \<open>a > 0\<close>.\<close>

definition floor_log2 :: "real \<Rightarrow> int" where
  "floor_log2 a =
     (if 1 \<le> a then bit_length \<lfloor>a\<rfloor> - 1
      else - bit_length (\<lceil>1 / a\<rceil> - 1))"

definition pow2 :: "int \<Rightarrow> real" where
  "pow2 e = (if 0 \<le> e then 2 ^ nat e else 1 / 2 ^ nat (- e))"

definition round_half_even :: "real \<Rightarrow> int" where
  "round_half_even q =
     (if q - of_int \<lfloor>q\<rfloor> < 1 / 2 then \<lfloor>q\<rfloor>
      else if 1 / 2 < q - of_int \<lfloor>q\<rfloor> then \<lfloor>q\<rfloor> + 1
      else if even \<lfloor>q\<rfloor> then \<lfloor>q\<rfloor> else \<lfloor>q\<rfloor> + 1)"

text \<open>
  The double nearest to a real, ties to the even significand: 53 significant bits, the
  exponent of the unit in the last place bounded below by \<open>-1074\<close> (subnormal numbers,
  underflow to 0), overflow to an infinity from \<open>2^1024 - 2^970\<close> on. The two zeros of
  the format are one value here.
\<close>

definition to_double :: "real \<Rightarrow> jsnum" where
  "to_double x =
     (if x = 0 then Fin 0
      else
        (let e = max (floor_log2 \<bar>x\<bar>) (- 1022);
             n = round_half_even (\<bar>x\<bar> / pow2 (e - 52))
         in if 1023 < (if n = 9007199254740992 then e + 1 else e)
            then (if 0 < x then PosInf else NegInf)
            else Fin (sgn x * (of_int n * pow2 (e - 52)))))"

definition double_of :: "jsnum \<Rightarrow> jsnum" where
  "double_of a = (case a of Fin x \<Rightarrow> to_double x | _ \<Rightarrow> a)"

text \<open>
  Sums and differences of doubles are the exact results rounded to the nearest double;
  \<open>parseFloat\<close> and numeric literals yield the double nearest to the decimal value.
\<close>

definition ieee_arith :: arith where
  "ieee_arith =
     \<lparr>num_add = (\<lambda>a b. double_of (js_add a b)),
      num_sub = (\<lambda>a b. double_of (js_sub a b)),
      num_parse = (\<lambda>s. double_of (parseFloat s)),
      num_epsilon = to_double (1 / 10000)\<rparr>"

subsection \<open>The scan of one coin, over an arithmetic\<close>

definition fillSize_with :: "arith \<Rightarrow> HyperLiquidUserFill \<Rightarrow> jsnum" where
  "fillSize_with ar fill = num_parse ar (sz fill)"

definition fillClosedPnl_with :: "arith \<Rightarrow> HyperLiquidUserFill \<Rightarrow> jsnum" where
  "fillClosedPnl_with ar fill =
     num_parse ar (if closedPnl fill = [] then ''0'' else closedPnl fill)"

definition applyFill_with :: "arith \<Rightarrow> position \<Rightarrow> HyperLiquidUserFill \<Rightarrow> position" where
  "applyFill_with ar p fill =
     (let positionDirection' =
            (case positionDirection p of
               None \<Rightarrow> Some (if isLong fill then long else short)
             | Some d \<Rightarrow> Some d);
          positionSize' =
            (if isLong fill then num_add ar (positionSize p) (fillSize_with ar fill)
             else num_sub ar (positionSize p) (fillSize_with ar fill));
          openTime' =
            (if openTime p = None \<and> js_strict_neq positionSize' (Fin 0)
             then Some (time fill) else openTime p)
      in \<lparr>positionSize = positionSize', openTime = openTime',
          totalPnL = num_add ar (totalPnL p) (fillClosedPnl_with ar fill),
          positionDirection = positionDirection'\<rparr>)"

definition positionClosed_with :: "arith \<Rightarrow> position \<Rightarrow> bool" where
  "positionClosed_with ar p =
     (openTime p \<noteq> None \<and> js_lt (js_abs (positionSize p)) (num_epsilon ar))"

definition processFill_with ::
  "arith \<Rightarrow> date_env \<Rightarrow> string \<Rightarrow> position \<times> CompletedTrade list \<Rightarrow> HyperLiquidUserFill
     \<Rightarrow> position \<times> CompletedTrade list" where
  "processFill_with ar env c st fill =
     (let p = applyFill_with ar (fst st) fill
      in if positionClosed_with ar p
         then (resetPosition p, snd st @ [closeTrade env c p fill])
         else (p, snd st))"

definition processCoin_with ::
  "arith \<Rightarrow> date_env \<Rightarrow> CompletedTrade list \<Rightarrow> string \<times> HyperLiquidUserFill list
     \<Rightarrow> CompletedTrade list" where
  "processCoin_with ar env completedTrades entry =
     snd (foldl (processFill_with ar env (fst entry)) (initialPosition, completedTrades)
            (sort_key time (snd entry)))"

definition processCompletedTrades_with ::
  "arith \<Rightarrow> date_env \<Rightarrow> HyperLiquidUserFill list \<Rightarrow> CompletedTrade list" where
  "processCompletedTrades_with ar env fills =
     (if length fills = 0 then []
      else sort_cmp (compareOpeningTime env)
             (foldl (processCoin_with ar env) [] (buildCoinMap fills)))"

text \<open>The trades pushed by a scan and the position after it, as for the first model.\<close>

fun emitted_with ::
  "arith \<Rightarrow> date_env \<Rightarrow> string \<Rightarrow> position \<Rightarrow> HyperLiquidUserFill list
     \<Rightarrow> CompletedTrade list" where
  "emitted_with ar env c p [] = []"
| "emitted_with ar env c p (fill # fills) =
     (if positionClosed_with ar (applyFill_with ar p fill)
      then closeTrade env c (applyFill_with ar p fill) fill
             # emitted_with ar env c (resetPosition (applyFill_with ar p fill)) fills
      else emitted_with ar env c (applyFill_with ar p fill) fills)"

fun finalPosition_with :: "arith \<Rightarrow> position \<Rightarrow> HyperLiquidUserFill list \<Rightarrow> position" where
  "finalPosition_with ar p [] = p"
| "finalPosition_with ar p (fill # fills) =
     finalPosition_with ar
       (if positionClosed_with ar (applyFill_with ar p fill)
        then resetPosition (applyFill_with ar p fill)
        else applyFill_with ar p fill) fills"

section \<open>Properties of the order book materializer\<close>

lemmas parse_defs = parseFloat_def strUnsigned_def strUnsignedDecimal_def is_digit_def
  is_white_def digits_val_def scale10_def exponentPart_def

subsection \<open>Rows of one side\<close>

lemma formatOrders_from_length: "length (formatOrders_from rt os) = length os"
  by (induction os arbitrary: rt) (simp_all add: Let_def)

lemma formatOrders_from_nth:
  "i < length os \<Longrightarrow>
   formatOrders_from rt os ! i =
     \<lparr>price = parseFloat (order_px (os ! i)), size_row = parseFloat (order_sz (os ! i)),
      total = foldl js_add rt (map (\<lambda>order. parseFloat (order_sz order)) (take (Suc i) os))\<rparr>"
proof (induction os arbitrary: rt i)
  case Nil
  then show ?case by simp
next
  case (Cons order os)
  show ?case
  proof (cases i)
    case 0
    then show ?thesis by (simp add: Let_def)
  next
    case (Suc k)
    with Cons.prems have "k < length os" by simp
    from Cons.IH [OF this] Suc show ?thesis by (simp add: Let_def)
  qed
qed

subsection \<open>Sums of non-negative numbers\<close>

lemma js_le_add_nonneg:
  "js_le (Fin 0) t \<Longrightarrow> js_le (Fin 0) x \<Longrightarrow> js_le t (js_add t x) \<and> js_le (Fin 0) (js_add t x)"
  by (cases t; cases x) (auto simp: js_le_def)

lemma js_le_trans: "js_le a b \<Longrightarrow> js_le b c \<Longrightarrow> js_le a c"
  by (cases a; cases b; cases c) (auto simp: js_le_def)

lemma foldl_js_add_mono:
  "js_le (Fin 0) rt \<Longrightarrow> \<forall>x \<in> set xs. js_le (Fin 0) x \<Longrightarrow>
   js_le rt (foldl js_add rt xs) \<and> js_le (Fin 0) (foldl js_add rt xs)"
proof (induction xs arbitrary: rt)
  case Nil
  then show ?case by (simp add: js_le_def)
next
  case (Cons x xs)
  from Cons.prems have a: "js_le rt (js_add rt x)" and b: "js_le (Fin 0) (js_add rt x)"
    using js_le_add_nonneg [of rt x] by simp_all
  from Cons.IH [OF b] Cons.prems(2)
  have "js_le (js_add rt x) (foldl js_add (js_add rt x) xs)"
    and "js_le (Fin 0) (foldl js_add (js_add rt x) xs)" by simp_all
  with a show ?case by (auto intro: js_le_trans)
qed

lemma running_total_mono:
  assumes "\<forall>x \<in> set xs. js_le (Fin 0) x" and "i \<le> j"
  shows "js_le (foldl js_add (Fin 0) (take i xs)) (foldl js_add (Fin 0) (take j xs))"
proof -
  have split: "take j xs = take i xs @ take (j - i) (drop i xs)"
    using assms(2) by (metis le_add_diff_inverse take_add)
  have nn1: "\<forall>x \<in> set (take i xs). js_le (Fin 0) x"
    using assms(1) by (meson in_set_takeD)
  have nn2: "\<forall>x \<in> set (take (j - i) (drop i xs)). js_le (Fin 0) x"
    using assms(1) by (meson in_set_takeD in_set_dropD)
  have "js_le (Fin 0) (foldl js_add (Fin 0) (take i xs))"
    using foldl_js_add_mono [OF _ nn1, of "Fin 0"] by (simp add: js_le_def)
  from foldl_js_add_mono [OF this nn2] show ?thesis
    by (simp add: split)
qed

subsection \<open>Mid price\<close>

text \<open>
  Claim C7. When both sides of the snapshot are non-empty, the mid price returned by
  \<open>convertOrderBook\<close> is the sum of the parsed prices of the first bid and of the first
  ask, divided by two; when these prices are the strings \<open>29.40\<close> and \<open>29.50\<close> the mid
  price is 29.45.
\<close>

theorem convertOrderBook_midPrice:
  assumes "levels ob = (bs, as)" and "bs \<noteq> []" and "as \<noteq> []"
  shows "midPrice (convertOrderBook ob precision) =
           js_div (js_add (parseFloat (order_px (hd bs))) (parseFloat (order_px (hd as)))) (Fin 2)
         \<and> (order_px (hd bs) = ''29.40'' \<and> order_px (hd as) = ''29.50''
              \<longrightarrow> midPrice (convertOrderBook ob precision) = Fin (2945 / 100))"
proof -
  have m: "midPrice (convertOrderBook ob precision) =
           js_div (js_add (parseFloat (order_px (hd bs))) (parseFloat (order_px (hd as)))) (Fin 2)"
    using assms by (simp add: convertOrderBook_def hd_conv_nth)
  have p1: "parseFloat ''29.40'' = Fin (294 / 10)" by (simp add: parse_defs)
  have p2: "parseFloat ''29.50'' = Fin (295 / 10)" by (simp add: parse_defs)
  show ?thesis using m by (simp add: p1 p2)
qed

theorem convertOrderBook_midPrice_witness:
  "levels book1 = (fst (levels book1), snd (levels book1))
   \<and> fst (levels book1) \<noteq> [] \<and> snd (levels book1) \<noteq> []
   \<and> order_px (hd (fst (levels book1))) = ''29.40''
   \<and> order_px (hd (snd (levels book1))) = ''29.50''
   \<and> midPrice (convertOrderBook book1 (Fin 3)) = Fin (2945 / 100)"
  using convertOrderBook_midPrice [of book1 "fst (levels book1)" "snd (levels book1)" "Fin 3"]
  by (simp add: book1_def parse_defs)

text \<open>
  Claim C8, as stated, fails: the value returned for a snapshot with an empty side is the
  number 0, which is also the mid price of a snapshot whose best bid and best ask are both
  priced 0. The two results below are equal.
\<close>

theorem convertOrderBook_empty_side_counterexample:
  "midPrice (convertOrderBook
      \<lparr>book_coin = ''X'', levels = ([], [\<lparr>order_px = ''29.50'', order_sz = ''3''\<rparr>]),
       book_time = 0\<rparr> (Fin 3))
   = midPrice (convertOrderBook
      \<lparr>book_coin = ''X'',
       levels = ([\<lparr>order_px = ''0'', order_sz = ''1''\<rparr>], [\<lparr>order_px = ''0'', order_sz = ''3''\<rparr>]),
       book_time = 0\<rparr> (Fin 3))"
  by (simp add: convertOrderBook_def parse_defs)

text \<open>
  Claim C8, amended. For every snapshot with at least one empty side \<open>convertOrderBook\<close>
  returns the mid price 0 (it has no failing path). This value differs from every mid
  price computed from two non-empty sides whose best prices are finite and do not sum
  to zero.
\<close>

theorem convertOrderBook_empty_side:
  assumes "levels ob = (bs, as)"
  shows "(bs = [] \<or> as = [] \<longrightarrow> midPrice (convertOrderBook ob precision) = Fin 0)
       \<and> (bs \<noteq> [] \<and> as \<noteq> [] \<and> parseFloat (order_px (hd bs)) = Fin x
            \<and> parseFloat (order_px (hd as)) = Fin y \<and> x + y \<noteq> 0
            \<longrightarrow> midPrice (convertOrderBook ob precision) \<noteq> Fin 0)"
  using assms by (auto simp: convertOrderBook_def hd_conv_nth)

theorem convertOrderBook_empty_side_witness:
  "levels (book1\<lparr>levels := ([], snd (levels book1))\<rparr>) = ([], snd (levels book1))
   \<and> midPrice (convertOrderBook (book1\<lparr>levels := ([], snd (levels book1))\<rparr>) (Fin 3)) = Fin 0
   \<and> parseFloat (order_px (hd (fst (levels book1)))) = Fin (294 / 10)
   \<and> parseFloat (order_px (hd (snd (levels book1)))) = Fin (295 / 10)
   \<and> midPrice (convertOrderBook book1 (Fin 3)) \<noteq> Fin 0"
  using convertOrderBook_empty_side [of "book1\<lparr>levels := ([], snd (levels book1))\<rparr>"
      "[]" "snd (levels book1)" "Fin 3" 0 0]
    convertOrderBook_empty_side [of book1 "fst (levels book1)" "snd (levels book1)" "Fin 3"
      "294 / 10" "295 / 10"]
  by (simp add: book1_def parse_defs)

subsection \<open>Cumulative depth\<close>

text \<open>
  Claim C9. For each side of the snapshot, \<open>convertOrderBook\<close> returns one row per input
  level, in the order of the input; row \<open>i\<close> carries the parsed price and size of level
  \<open>i\<close>, and its \<open>total\<close> is the running sum, from 0, of the parsed sizes of levels 0 to
  \<open>i\<close>. When every size is non-negative, \<open>total\<close> does not decrease along the side.
\<close>

theorem convertOrderBook_depth:
  assumes "r = convertOrderBook ob precision"
    and "(os, rows) = (fst (levels ob), bids r) \<or> (os, rows) = (snd (levels ob), asks r)"
  shows "length rows = length os
       \<and> (\<forall>i < length os.
             price (rows ! i) = parseFloat (order_px (os ! i))
           \<and> size_row (rows ! i) = parseFloat (order_sz (os ! i))
           \<and> total (rows ! i) =
               foldl js_add (Fin 0) (map (\<lambda>order. parseFloat (order_sz order)) (take (Suc i) os)))
       \<and> ((\<forall>order \<in> set os. js_le (Fin 0) (parseFloat (order_sz order)))
            \<longrightarrow> (\<forall>i j. i \<le> j \<and> j < length os
                   \<longrightarrow> js_le (total (rows ! i)) (total (rows ! j))))"
proof -
  have rows: "rows = formatOrders os"
    using assms by (auto simp: convertOrderBook_def split: prod.splits)
  have len: "length rows = length os"
    by (simp add: rows formatOrders_def formatOrders_from_length)
  have nth: "rows ! i =
     \<lparr>price = parseFloat (order_px (os ! i)), size_row = parseFloat (order_sz (os ! i)),
      total = foldl js_add (Fin 0) (map (\<lambda>order. parseFloat (order_sz order)) (take (Suc i) os))\<rparr>"
    if "i < length os" for i
    using that by (simp add: rows formatOrders_def formatOrders_from_nth)
  have mono: "js_le (total (rows ! i)) (total (rows ! j))"
    if nn: "\<forall>order \<in> set os. js_le (Fin 0) (parseFloat (order_sz order))"
      and ij: "i \<le> j" "j < length os" for i j
  proof -
    have "\<forall>x \<in> set (map (\<lambda>order. parseFloat (order_sz order)) os). js_le (Fin 0) x"
      using nn by simp
    from running_total_mono [OF this, of "Suc i" "Suc j"] ij
    show ?thesis by (simp add: nth take_map)
  qed
  show ?thesis using len nth mono by simp
qed

theorem convertOrderBook_depth_witness:
  "js_le (Fin 0) (parseFloat ''1.5'') \<and> js_le (Fin 0) (parseFloat ''2'')
   \<and> js_le (Fin 0) (parseFloat ''0.5'')
   \<and> length (bids (convertOrderBook book1 (Fin 3))) = 3
   \<and> total (bids (convertOrderBook book1 (Fin 3)) ! 2) = Fin 4
   \<and> js_le (total (bids (convertOrderBook book1 (Fin 3)) ! 0))
        (total (bids (convertOrderBook book1 (Fin 3)) ! 2))"
proof -
  let ?r = "convertOrderBook book1 (Fin 3)"
  let ?os = "fst (levels book1)"
  have p: "parseFloat ''1.5'' = Fin (3 / 2)" "parseFloat ''2'' = Fin 2"
    "parseFloat ''0.5'' = Fin (1 / 2)"
    by (simp_all add: parse_defs)
  have nn: "\<forall>order \<in> set ?os. js_le (Fin 0) (parseFloat (order_sz order))"
    by (simp add: book1_def p js_le_def)
  have len: "length ?os = 3"
    by (simp add: book1_def)
  note d = convertOrderBook_depth [OF refl disjI1 [OF refl], of book1 "Fin 3"]
  from d have lenr: "length (bids ?r) = 3"
    by (simp add: len)
  from d nn have "\<forall>i j. i \<le> j \<and> j < length ?os
      \<longrightarrow> js_le (total (bids ?r ! i)) (total (bids ?r ! j))"
    by blast
  from this [rule_format, of 0 2] have mono: "js_le (total (bids ?r ! 0)) (total (bids ?r ! 2))"
    by (simp add: len)
  from d have tot: "\<forall>i < length ?os. total (bids ?r ! i) =
      foldl js_add (Fin 0) (map (\<lambda>order. parseFloat (order_sz order)) (take (Suc i) ?os))"
    by blast
  have "2 < length ?os"
    by (simp add: len)
  from tot [rule_format, OF this]
  have "total (bids ?r ! 2) =
      foldl js_add (Fin 0) (map (\<lambda>order. parseFloat (order_sz order)) (take (Suc 2) ?os))" .
  also have "\<dots> = Fin 4"
    by (simp add: book1_def p)
  finally have t2: "total (bids ?r ! 2) = Fin 4" .
  from p have q: "js_le (Fin 0) (parseFloat ''1.5'')" "js_le (Fin 0) (parseFloat ''2'')"
    "js_le (Fin 0) (parseFloat ''0.5'')"
    by (simp_all add: js_le_def)
  from q lenr t2 mono show ?thesis by blast
qed

section \<open>Properties of the trade reconstructor\<close>

lemmas scan_defs = processCompletedTrades_def buildCoinMap_def coinMap_add_def map_has_def
  map_push_def processCoin_def processFill_def applyFill_def positionClosed_def
  resetPosition_def closeTrade_def initialPosition_def fillSize_def fillClosedPnl_def
  isLong_def js_sub_def js_strict_neq_def formatDuration_def js_rem_def int_to_string_def
  sort_cmp_def compareOpeningTime_def mkFill_def Let_def

subsection \<open>The scan of one coin\<close>

lemma scan_eq:
  "foldl (processFill env c) (p, out) fills = (finalPosition p fills, out @ emitted env c p fills)"
  by (induction fills arbitrary: p out) (simp_all add: processFill_def Let_def)

lemma processCoin_eq:
  "processCoin env out (c, coinFills) = out @ emitted env c initialPosition (sort_key time coinFills)"
  by (simp add: processCoin_def scan_eq)




lemma totalPnL_applyFill [simp]:
  "totalPnL (applyFill p f) = js_add (totalPnL p) (fillClosedPnl f)"
  by (simp add: applyFill_def Let_def)

lemma positionDirection_applyFill [simp]:
  "positionDirection (applyFill p f) =
     (case positionDirection p of None \<Rightarrow> Some (if isLong f then long else short) | Some d \<Rightarrow> Some d)"
  by (simp add: applyFill_def Let_def)

lemma positionSize_applyFill:
  "positionSize (applyFill p f) =
     (if isLong f then js_add (positionSize p) (fillSize f) else js_sub (positionSize p) (fillSize f))"
  by (simp add: applyFill_def Let_def)





lemma resetPosition_fields [simp]:
  "openTime (resetPosition p) = None" "totalPnL (resetPosition p) = Fin 0"
  "positionDirection (resetPosition p) = None" "positionSize (resetPosition p) = positionSize p"
  by (simp_all add: resetPosition_def)


text \<open>Where a trade is built, the opening time and the direction are set.\<close>

lemma closeTrade_defined:
  "positionClosed (applyFill p f) \<Longrightarrow>
   \<exists>t d. openTime (applyFill p f) = Some t \<and> positionDirection (applyFill p f) = Some d"
  by (cases "positionDirection p") (auto simp: positionClosed_def)


subsection \<open>A position whose size is not a number\<close>

lemma js_le_not_lt: "js_le a b \<Longrightarrow> \<not> js_lt b a"
  by (cases a; cases b) (auto simp: js_le_def)

lemma nan_absorbs:
  "positionSize p = NaN \<Longrightarrow>
   emitted env c p fills = [] \<and> positionSize (finalPosition p fills) = NaN"
proof (induction fills arbitrary: p)
  case Nil
  then show ?case by simp
next
  case (Cons f fills)
  have n: "positionSize (applyFill p f) = NaN"
    using Cons.prems by (simp add: positionSize_applyFill js_sub_def)
  then have "\<not> positionClosed (applyFill p f)"
    by (simp add: positionClosed_def)
  with Cons.IH [OF n] show ?case by simp
qed

subsection \<open>The coin map\<close>

lemma buildCoinMap_eq:
  "buildCoinMap fills =
     map (\<lambda>c. (c, filter (\<lambda>f. coin f = c) fills)) (rev (remdups (rev (map coin fills))))"
proof (induction fills rule: rev_induct)
  case Nil
  then show ?case by (simp add: buildCoinMap_def)
next
  case (snoc f fills)
  let ?ks = "rev (remdups (rev (map coin fills)))"
  have step: "buildCoinMap (fills @ [f]) = coinMap_add (buildCoinMap fills) f"
    by (simp add: buildCoinMap_def)
  have keys: "fst ` set (buildCoinMap fills) = coin ` set fills"
    by (simp add: snoc.IH image_image)
  have has: "map_has (buildCoinMap fills) (coin f) \<longleftrightarrow> coin f \<in> coin ` set fills"
    by (simp add: map_has_def keys)
  show ?case
  proof (cases "coin f \<in> coin ` set fills")
    case True
    then have ks: "rev (remdups (rev (map coin (fills @ [f])))) = ?ks" by simp
    show ?thesis
      unfolding step ks coinMap_add_def has using True
      by (simp add: map_push_def snoc.IH)
  next
    case False
    then have ks: "rev (remdups (rev (map coin (fills @ [f])))) = ?ks @ [coin f]" by simp
    have ne: "coin g \<noteq> coin f" "coin f \<noteq> coin g" if "g \<in> set fills" for g
    proof -
      from that have "coin g \<in> coin ` set fills" by (rule imageI)
      with False show "coin g \<noteq> coin f" "coin f \<noteq> coin g" by metis+
    qed
    then have none: "filter (\<lambda>g. coin g = coin f) fills = []"
      by (simp add: filter_empty_conv)
    show ?thesis
      unfolding step ks coinMap_add_def has using False
      by (simp add: map_push_def snoc.IH none ne)
  qed
qed

lemma foldl_processCoin:
  "foldl (processCoin env) out m =
     out @ concat (map (\<lambda>entry. processCoin env [] entry) m)"
proof (induction m arbitrary: out)
  case Nil
  then show ?case by simp
next
  case (Cons entry m)
  have "processCoin env out entry = out @ processCoin env [] entry"
    by (cases entry) (simp add: processCoin_eq)
  with Cons show ?case by simp
qed

subsection \<open>The final sort\<close>

lemma mset_insort_cmp: "mset (insort_cmp cmp x xs) = add_mset x (mset xs)"
  by (induction xs) simp_all

lemma mset_sort_cmp: "mset (sort_cmp cmp xs) = mset xs"
  by (induction xs) (simp_all add: sort_cmp_def mset_insort_cmp)

lemma insort_cmp_key:
  assumes "\<And>y. y \<in> set ys \<Longrightarrow> cmp x y \<le> 0 \<longleftrightarrow> key x \<le> (key y :: int)"
  shows "insort_cmp cmp x ys = insort_key key x ys"
  using assms by (induction ys) simp_all

lemma sort_cmp_key:
  assumes "\<And>x y. x \<in> set xs \<Longrightarrow> y \<in> set xs \<Longrightarrow> cmp x y \<le> 0 \<longleftrightarrow> key x \<le> (key y :: int)"
  shows "sort_cmp cmp xs = sort_key key xs"
  using assms
proof (induction xs)
  case Nil
  then show ?case by (simp add: sort_cmp_def)
next
  case (Cons x xs)
  have ih: "sort_cmp cmp xs = sort_key key xs"
    by (rule Cons.IH) (simp_all add: Cons.prems)
  have "insort_cmp cmp x (sort_key key xs) = insort_key key x (sort_key key xs)"
    by (rule insort_cmp_key) (simp add: Cons.prems)
  with ih show ?case by (simp add: sort_cmp_def)
qed

text \<open>When every opening time parses, the final sort is a stable sort by decreasing parsed time.\<close>

lemma sort_compareOpeningTime:
  assumes "\<And>t. t \<in> set ts \<Longrightarrow> parseDate env (openingTime t) \<noteq> None"
  shows "sort_cmp (compareOpeningTime env) ts =
         sort_key (\<lambda>t. - the (parseDate env (openingTime t))) ts"
proof (rule sort_cmp_key)
  fix x y
  assume "x \<in> set ts" "y \<in> set ts"
  with assms obtain a b where "parseDate env (openingTime x) = Some a"
    "parseDate env (openingTime y) = Some b" by fastforce
  then show "compareOpeningTime env x y \<le> 0 \<longleftrightarrow>
     - the (parseDate env (openingTime x)) \<le> - the (parseDate env (openingTime y))"
    by (simp add: compareOpeningTime_def)
qed

subsection \<open>The result as a collection of per-coin scans\<close>

lemma processCompletedTrades_eq:
  "processCompletedTrades env fills =
     sort_cmp (compareOpeningTime env)
       (concat (map (\<lambda>c. processCoin env [] (c, filter (\<lambda>f. coin f = c) fills))
                  (rev (remdups (rev (map coin fills))))))"
  by (simp add: processCompletedTrades_def foldl_processCoin buildCoinMap_eq comp_def sort_cmp_def)

lemma mset_processCompletedTrades:
  "mset (processCompletedTrades env fills) =
     (\<Sum>c \<in> coin ` set fills. mset (processCoin env [] (c, filter (\<lambda>f. coin f = c) fills)))"
proof -
  let ?ks = "rev (remdups (rev (map coin fills)))"
  let ?g = "\<lambda>c. mset (processCoin env [] (c, filter (\<lambda>f. coin f = c) fills))"
  have d: "distinct ?ks" by simp
  have "mset (processCompletedTrades env fills) = sum_list (map ?g ?ks)"
    by (simp add: processCompletedTrades_eq mset_sort_cmp mset_concat comp_def)
  also have "\<dots> = sum ?g (set ?ks)"
    using d by (rule sum_list_distinct_conv_sum_set)
  also have "set ?ks = coin ` set fills" by simp
  finally show ?thesis .
qed

lemma sorted_coin_fills_permutation:
  assumes perm: "mset fills' = mset fills"
    and dist: "distinct (map (\<lambda>f. (coin f, time f)) fills)"
  shows "sort_key time (filter (\<lambda>f. coin f = c) fills') =
         sort_key time (filter (\<lambda>f. coin f = c) fills)"
proof (rule sort_key_inj_key_eq)
  show "mset (filter (\<lambda>f. coin f = c) fills') =
        mset (sort_key time (filter (\<lambda>f. coin f = c) fills))"
    by (simp add: perm)
  have s: "set fills' = set fills"
    using perm by (rule mset_eq_setD)
  from dist have "inj_on (\<lambda>f. (coin f, time f)) (set fills)"
    by (simp add: distinct_map)
  then show "inj_on time (set (filter (\<lambda>f. coin f = c) fills'))"
    by (auto simp: inj_on_def s)
  show "sorted (map time (sort_key time (filter (\<lambda>f. coin f = c) fills)))"
    by simp
qed


lemma sum_list_single_coin:
  "distinct ks \<Longrightarrow>
   sum_list (map (\<lambda>k. if k = c then g k else ({#} :: 'a multiset)) ks) =
     (if c \<in> set ks then g c else {#})"
  by (induction ks) auto


lemma filter_nonempty_coin:
  "filter (\<lambda>f. coin f = c) fills \<noteq> [] \<Longrightarrow> c \<in> coin ` set fills"
  by (induction fills) (auto split: if_splits)

subsection \<open>A single round trip\<close>

text \<open>
  Claim C1, as stated, fails: the returned record holds the opening time as a display
  string and the duration as the string \<open>0h 0m\<close>; it has no close timestamp and no
  duration in milliseconds, and it is the same record when the closing fill comes at
  59999 instead of 1000.
\<close>

theorem single_round_trip_counterexample:
  "processCompletedTrades enUS_UTC
     [mkFill ''X'' SideB ''1'' 0 ''0'', mkFill ''X'' SideA ''1'' 1000 ''5.0''] =
     [\<lparr>trade_coin = ''X'', direction = long, openingTime = ''1/1/1970, 12:00:00 AM'',
       duration = ''0h 0m'', realizedPnL = Fin 5\<rparr>]
   \<and> processCompletedTrades enUS_UTC
     [mkFill ''X'' SideB ''1'' 0 ''0'', mkFill ''X'' SideA ''1'' 59999 ''5.0''] =
     [\<lparr>trade_coin = ''X'', direction = long, openingTime = ''1/1/1970, 12:00:00 AM'',
       duration = ''0h 0m'', realizedPnL = Fin 5\<rparr>]"
  by code_simp

text \<open>
  Claim C1, amended. On every host, for the two fills buy 1 at time 0 (closedPnl 0) and
  sell 1 at time 1000 (closedPnl 5.0) of coin X, \<open>processCompletedTrades\<close> returns exactly
  one trade: coin X, direction long, opening time the host's rendering of time 0,
  duration \<open>0h 0m\<close>, realized PnL 5.
\<close>

theorem single_round_trip:
  "processCompletedTrades env
     [mkFill ''X'' SideB ''1'' 0 ''0'', mkFill ''X'' SideA ''1'' 1000 ''5.0''] =
     [\<lparr>trade_coin = ''X'', direction = long, openingTime = toLocaleString env 0,
       duration = ''0h 0m'', realizedPnL = Fin 5\<rparr>]"
  by (simp add: scan_defs parse_defs)

subsection \<open>Sizes that are zero, negative or not numbers\<close>

text \<open>
  Claim C3, as stated, fails: fills of negative size are processed and yield a trade; a
  fill of size zero is processed and even fixes the direction of the next trade; a fill
  whose size is not a number yields an empty result and no error.
\<close>

theorem invalid_size_counterexample:
  "processCompletedTrades enUS_UTC
     [mkFill ''X'' SideB ''-1'' 0 ''0'', mkFill ''X'' SideA ''-1'' 1000 ''5.0''] =
     [\<lparr>trade_coin = ''X'', direction = long, openingTime = ''1/1/1970, 12:00:00 AM'',
       duration = ''0h 0m'', realizedPnL = Fin 5\<rparr>]
   \<and> processCompletedTrades enUS_UTC
     [mkFill ''X'' SideA ''0'' 0 ''0'', mkFill ''X'' SideB ''1'' 1000 ''0'',
      mkFill ''X'' SideA ''1'' 2000 ''5.0''] =
     [\<lparr>trade_coin = ''X'', direction = short, openingTime = ''1/1/1970, 12:00:01 AM'',
       duration = ''0h 0m'', realizedPnL = Fin 5\<rparr>]
   \<and> processCompletedTrades enUS_UTC
     [mkFill ''X'' SideB ''abc'' 0 ''0'', mkFill ''X'' SideA ''1'' 1000 ''5.0''] = []"
  by code_simp

text \<open>
  Claim C3, amended. The scan validates no size and has no failing path: a fill whose
  parsed size is 0 leaves the position size unchanged; a fill of any finite size, negative
  or not, is added to (buy) or subtracted from (sell) a finite position size; once a size
  is not a number the position size is \<open>NaN\<close> and the scan of that coin pushes no further
  trade.
\<close>

theorem invalid_size_processed:
  "(fillSize f = Fin 0
      \<longrightarrow> positionSize (fst (processFill env c (p, out) f)) = positionSize p)
   \<and> (positionSize p = Fin s \<and> fillSize f = Fin x
      \<longrightarrow> positionSize (fst (processFill env c (p, out) f)) =
          Fin (if isLong f then s + x else s - x))
   \<and> (fillSize f = NaN
      \<longrightarrow> snd (foldl (processFill env c) (p, out) (f # fills)) = out
        \<and> positionSize (fst (foldl (processFill env c) (p, out) (f # fills))) = NaN)"
proof -
  have ps: "positionSize (fst (processFill env c (p, out) f)) = positionSize (applyFill p f)"
    by (simp add: processFill_def Let_def)
  have zero: "positionSize (applyFill p f) = positionSize p" if "fillSize f = Fin 0"
    using that by (cases "positionSize p") (simp_all add: positionSize_applyFill js_sub_def)
  have fin: "positionSize (applyFill p f) = Fin (if isLong f then s + x else s - x)"
    if "positionSize p = Fin s" "fillSize f = Fin x"
    using that by (simp add: positionSize_applyFill js_sub_def)
  have nan: "snd (foldl (processFill env c) (p, out) (f # fills)) = out
        \<and> positionSize (fst (foldl (processFill env c) (p, out) (f # fills))) = NaN"
    if "fillSize f = NaN"
  proof -
    have n: "positionSize (applyFill p f) = NaN"
      using that by (cases "positionSize p") (simp_all add: positionSize_applyFill js_sub_def)
    then have "\<not> positionClosed (applyFill p f)"
      by (simp add: positionClosed_def)
    with nan_absorbs [OF n, of env c fills] show ?thesis
      by (simp add: scan_eq del: foldl_Cons)
  qed
  from ps zero fin nan show ?thesis by simp
qed

theorem invalid_size_processed_witness:
  "fillSize (mkFill ''X'' SideB ''0'' 0 ''0'') = Fin 0
   \<and> positionSize (fst (processFill enUS_UTC ''X'' (initialPosition, [])
        (mkFill ''X'' SideB ''0'' 0 ''0''))) = Fin 0
   \<and> fillSize (mkFill ''X'' SideA ''-1'' 0 ''0'') = Fin (- 1)
   \<and> positionSize (fst (processFill enUS_UTC ''X'' (initialPosition, [])
        (mkFill ''X'' SideA ''-1'' 0 ''0''))) = Fin 1
   \<and> fillSize (mkFill ''X'' SideB ''abc'' 0 ''0'') = NaN
   \<and> snd (foldl (processFill enUS_UTC ''X'') (initialPosition, [])
        [mkFill ''X'' SideB ''abc'' 0 ''0'', mkFill ''X'' SideA ''1'' 1000 ''5.0'']) = []"
proof -
  let ?z = "mkFill ''X'' SideB ''0'' 0 ''0''"
  let ?n = "mkFill ''X'' SideA ''-1'' 0 ''0''"
  let ?a = "mkFill ''X'' SideB ''abc'' 0 ''0''"
  have z: "fillSize ?z = Fin 0" by (simp add: fillSize_def mkFill_def parse_defs)
  have n: "fillSize ?n = Fin (- 1)" "\<not> isLong ?n"
    by (simp_all add: fillSize_def isLong_def mkFill_def parse_defs)
  have a: "fillSize ?a = NaN" by (simp add: fillSize_def mkFill_def parse_defs)
  have i: "positionSize initialPosition = Fin 0" by (simp add: initialPosition_def)
  from invalid_size_processed [where f = ?z and env = enUS_UTC and c = "''X''"
      and p = initialPosition and out = "[]"] z i
  have 1: "positionSize (fst (processFill enUS_UTC ''X'' (initialPosition, []) ?z)) = Fin 0"
    by simp
  from invalid_size_processed [where f = ?n and env = enUS_UTC and c = "''X''"
      and p = initialPosition and out = "[]" and s = 0 and x = "- 1"] n i
  have 2: "positionSize (fst (processFill enUS_UTC ''X'' (initialPosition, []) ?n)) = Fin 1"
    by simp
  from invalid_size_processed [where f = ?a and env = enUS_UTC and c = "''X''"
      and p = initialPosition and out = "[]"
      and fills = "[mkFill ''X'' SideA ''1'' 1000 ''5.0'']"] a
  have 3: "snd (foldl (processFill enUS_UTC ''X'') (initialPosition, [])
        [?a, mkFill ''X'' SideA ''1'' 1000 ''5.0'']) = []"
    by simp
  from z n(1) a 1 2 3 show ?thesis by blast
qed

subsection \<open>The scan over an arithmetic\<close>

text \<open>
  With the exact arithmetic the functions over an arithmetic are the functions of the first
  model; the lemmas on the scan and on the result hold over every arithmetic.
\<close>

lemma applyFill_with_exact: "applyFill_with exact_arith p f = applyFill p f"
  by (simp add: applyFill_with_def applyFill_def fillSize_with_def fillSize_def
      fillClosedPnl_with_def fillClosedPnl_def exact_arith_def)

lemma positionClosed_with_exact: "positionClosed_with exact_arith p = positionClosed p"
  by (simp add: positionClosed_with_def positionClosed_def exact_arith_def)

lemma processFill_with_exact: "processFill_with exact_arith env c st f = processFill env c st f"
  by (simp add: processFill_with_def processFill_def applyFill_with_exact
      positionClosed_with_exact)

lemma processCompletedTrades_with_exact:
  "processCompletedTrades_with exact_arith env fills = processCompletedTrades env fills"
proof -
  have pf: "processFill_with exact_arith env c = processFill env c" for c
    by (intro ext) (rule processFill_with_exact)
  have "processCoin_with exact_arith env = processCoin env"
    by (intro ext) (simp add: processCoin_with_def processCoin_def pf)
  then show ?thesis
    by (simp add: processCompletedTrades_with_def processCompletedTrades_def)
qed

lemma scan_with_eq:
  "foldl (processFill_with ar env c) (p, out) fills =
     (finalPosition_with ar p fills, out @ emitted_with ar env c p fills)"
  by (induction fills arbitrary: p out) (simp_all add: processFill_with_def Let_def)

lemma processCoin_with_eq:
  "processCoin_with ar env out (c, coinFills) =
     out @ emitted_with ar env c initialPosition (sort_key time coinFills)"
  by (simp add: processCoin_with_def scan_with_eq)

lemma emitted_with_append:
  "emitted_with ar env c p (xs @ ys) =
     emitted_with ar env c p xs @ emitted_with ar env c (finalPosition_with ar p xs) ys"
  by (induction xs arbitrary: p) simp_all

lemma finalPosition_with_append:
  "finalPosition_with ar p (xs @ ys) = finalPosition_with ar (finalPosition_with ar p xs) ys"
  by (induction xs arbitrary: p) simp_all

lemma openTime_applyFill_with:
  "openTime (applyFill_with ar p f) =
     (if openTime p = None \<and> js_strict_neq (positionSize (applyFill_with ar p f)) (Fin 0)
      then Some (time f) else openTime p)"
  by (simp add: applyFill_with_def Let_def)

lemma emitted_with_coin: "t \<in> set (emitted_with ar env c p fs) \<Longrightarrow> trade_coin t = c"
  by (induction fs arbitrary: p) (auto simp: closeTrade_def split: if_splits)

lemma foldl_processCoin_with:
  "foldl (processCoin_with ar env) out m =
     out @ concat (map (\<lambda>entry. processCoin_with ar env [] entry) m)"
proof (induction m arbitrary: out)
  case Nil
  then show ?case by simp
next
  case (Cons entry m)
  have "processCoin_with ar env out entry = out @ processCoin_with ar env [] entry"
    by (cases entry) (simp add: processCoin_with_eq)
  with Cons show ?case by simp
qed

lemma processCompletedTrades_with_eq:
  "processCompletedTrades_with ar env fills =
     sort_cmp (compareOpeningTime env)
       (concat (map (\<lambda>c. processCoin_with ar env [] (c, filter (\<lambda>f. coin f = c) fills))
                  (rev (remdups (rev (map coin fills))))))"
  by (simp add: processCompletedTrades_with_def foldl_processCoin_with buildCoinMap_eq comp_def
      sort_cmp_def)

lemma filter_processCoin_with:
  "filter (\<lambda>t. trade_coin t = c) (processCoin_with ar env [] (c', xs)) =
     (if c' = c then processCoin_with ar env [] (c', xs) else [])"
  by (auto simp: processCoin_with_eq filter_empty_conv filter_id_conv dest: emitted_with_coin)

lemma trades_of_coin_with:
  "filter_mset (\<lambda>t. trade_coin t = c) (mset (processCompletedTrades_with ar env fills)) =
     (if c \<in> coin ` set fills
      then mset (processCoin_with ar env [] (c, filter (\<lambda>f. coin f = c) fills)) else {#})"
proof -
  let ?ks = "rev (remdups (rev (map coin fills)))"
  let ?g = "\<lambda>k. mset (processCoin_with ar env [] (k, filter (\<lambda>f. coin f = k) fills))"
  have d: "distinct ?ks" by simp
  have "mset (processCompletedTrades_with ar env fills) = sum_list (map ?g ?ks)"
    by (simp add: processCompletedTrades_with_eq mset_sort_cmp mset_concat comp_def)
  then have "filter_mset (\<lambda>t. trade_coin t = c) (mset (processCompletedTrades_with ar env fills)) =
      sum_list (map (\<lambda>k. filter_mset (\<lambda>t. trade_coin t = c) (?g k)) ?ks)"
    by (simp add: filter_mset_sum_list comp_def)
  also have "(\<lambda>k. filter_mset (\<lambda>t. trade_coin t = c) (?g k)) =
      (\<lambda>k. if k = c then ?g k else {#})"
    by (rule ext) (simp add: mset_filter [symmetric] filter_processCoin_with del: mset_filter)
  also have "sum_list (map (\<lambda>k. if k = c then ?g k else {#}) ?ks) =
      (if c \<in> set ?ks then ?g c else {#})"
    using d by (rule sum_list_single_coin)
  finally show ?thesis by simp
qed

lemma js_le_pos_nonzero:
  "js_lt (Fin 0) eps \<Longrightarrow> js_le eps (js_abs a) \<Longrightarrow> js_strict_neq a (Fin 0)"
  by (cases a; cases eps) (auto simp: js_strict_neq_def js_le_def)

lemma ieee_epsilon: "num_epsilon ieee_arith = Fin (7378697629483821 / 73786976294838206464)"
  by code_simp

subsection \<open>A position left open\<close>

text \<open>
  Claim C5. Over every arithmetic, that of IEEE doubles included: when the scan of a
  coin's fills, in time order, ends with a position size of magnitude at least the value
  of the literal \<open>0.0001\<close>, the last fill pushes no trade and the position is left open
  (its opening time is still set): the trades of that coin in the result are those pushed
  before the last fill, and the cycle that is still open yields none. In particular a
  single buy of size 1 yields the empty result, in doubles as in exact arithmetic.
\<close>

theorem dangling_position_not_emitted:
  assumes sorted: "sort_key time (filter (\<lambda>f. coin f = c) fills) = earlier @ [lastFill]"
    and final: "final = fst (foldl (processFill_with ar env c) (initialPosition, completedTrades)
                              (earlier @ [lastFill]))"
    and eps: "js_lt (Fin 0) (num_epsilon ar)"
    and open_size: "js_le (num_epsilon ar) (js_abs (positionSize final))"
  shows "processCoin_with ar env completedTrades (c, filter (\<lambda>f. coin f = c) fills) =
           snd (foldl (processFill_with ar env c) (initialPosition, completedTrades) earlier)
       \<and> openTime final \<noteq> None
       \<and> filter_mset (\<lambda>t. trade_coin t = c) (mset (processCompletedTrades_with ar env fills)) =
           mset (snd (foldl (processFill_with ar env c) (initialPosition, []) earlier))
       \<and> processCompletedTrades_with ieee_arith env [mkFill c' SideB ''1'' 0 ''0''] = []
       \<and> processCompletedTrades env [mkFill c' SideB ''1'' 0 ''0''] = []"
proof -
  let ?p = "finalPosition_with ar initialPosition earlier"
  let ?q = "applyFill_with ar ?p lastFill"
  let ?coinFills = "filter (\<lambda>f. coin f = c) fills"
  have fin: "final = (if positionClosed_with ar ?q then resetPosition ?q else ?q)"
    by (simp add: final scan_with_eq finalPosition_with_append del: foldl_append)
  then have "positionSize final = positionSize ?q" by simp
  with open_size have big: "js_le (num_epsilon ar) (js_abs (positionSize ?q))" by simp
  then have nc: "\<not> positionClosed_with ar ?q"
    by (simp add: positionClosed_with_def js_le_not_lt)
  from eps big have "js_strict_neq (positionSize ?q) (Fin 0)"
    by (rule js_le_pos_nonzero)
  then have op: "openTime ?q \<noteq> None"
    by (simp add: openTime_applyFill_with)
  have em: "emitted_with ar env c initialPosition (sort_key time ?coinFills) =
            emitted_with ar env c initialPosition earlier"
    using nc by (simp add: sorted emitted_with_append)
  have 1: "processCoin_with ar env completedTrades (c, ?coinFills) =
           snd (foldl (processFill_with ar env c) (initialPosition, completedTrades) earlier)"
    by (simp add: processCoin_with_eq em scan_with_eq)
  from sorted have "sort_key time ?coinFills \<noteq> []" by simp
  then have "?coinFills \<noteq> []" by auto
  then have "c \<in> coin ` set fills" by (rule filter_nonempty_coin)
  then have 2: "filter_mset (\<lambda>t. trade_coin t = c)
             (mset (processCompletedTrades_with ar env fills)) =
           mset (snd (foldl (processFill_with ar env c) (initialPosition, []) earlier))"
    by (simp add: trades_of_coin_with processCoin_with_eq em scan_with_eq del: mset_filter)
  have one: "num_parse ieee_arith ''1'' = Fin 1" "num_parse ieee_arith ''0'' = Fin 0"
    "num_add ieee_arith (Fin 0) (Fin 1) = Fin 1" "num_add ieee_arith (Fin 0) (Fin 0) = Fin 0"
    by code_simp+
  have 3: "processCompletedTrades_with ieee_arith env [mkFill c' SideB ''1'' 0 ''0''] = []"
    by (simp add: processCompletedTrades_with_def processCoin_with_def processFill_with_def
        applyFill_with_def positionClosed_with_def fillSize_with_def fillClosedPnl_with_def
        buildCoinMap_def coinMap_add_def map_has_def map_push_def initialPosition_def isLong_def
        mkFill_def sort_cmp_def one ieee_epsilon js_strict_neq_def Let_def)
  have 4: "processCompletedTrades env [mkFill c' SideB ''1'' 0 ''0''] = []"
    by (simp add: scan_defs parse_defs)
  from 1 2 3 4 op nc fin show ?thesis by simp
qed

theorem dangling_position_not_emitted_witness:
  "sort_key time (filter (\<lambda>f. coin f = ''X'') open_position_fills) =
     [mkFill ''X'' SideB ''0.3'' 0 ''0'', mkFill ''X'' SideA ''0.3'' 1000 ''5.0'']
       @ [mkFill ''X'' SideB ''0.0003'' 2000 ''0'']
   \<and> js_lt (Fin 0) (num_epsilon ieee_arith)
   \<and> js_le (num_epsilon ieee_arith)
        (js_abs (positionSize (fst (foldl (processFill_with ieee_arith enUS_UTC ''X'')
           (initialPosition, [])
           ([mkFill ''X'' SideB ''0.3'' 0 ''0'', mkFill ''X'' SideA ''0.3'' 1000 ''5.0'']
              @ [mkFill ''X'' SideB ''0.0003'' 2000 ''0''])))))
   \<and> filter_mset (\<lambda>t. trade_coin t = ''X'')
        (mset (processCompletedTrades_with ieee_arith enUS_UTC open_position_fills)) =
        mset (snd (foldl (processFill_with ieee_arith enUS_UTC ''X'') (initialPosition, [])
          [mkFill ''X'' SideB ''0.3'' 0 ''0'', mkFill ''X'' SideA ''0.3'' 1000 ''5.0'']))
   \<and> length (processCompletedTrades_with ieee_arith enUS_UTC open_position_fills) = 1"
proof -
  have s: "sort_key time (filter (\<lambda>f. coin f = ''X'') open_position_fills) =
     [mkFill ''X'' SideB ''0.3'' 0 ''0'', mkFill ''X'' SideA ''0.3'' 1000 ''5.0'']
       @ [mkFill ''X'' SideB ''0.0003'' 2000 ''0'']"
    by (simp add: open_position_fills_def mkFill_def)
  have e: "js_lt (Fin 0) (num_epsilon ieee_arith)"
    by (simp add: ieee_epsilon)
  have b: "js_le (num_epsilon ieee_arith)
        (js_abs (positionSize (fst (foldl (processFill_with ieee_arith enUS_UTC ''X'')
           (initialPosition, [])
           ([mkFill ''X'' SideB ''0.3'' 0 ''0'', mkFill ''X'' SideA ''0.3'' 1000 ''5.0'']
              @ [mkFill ''X'' SideB ''0.0003'' 2000 ''0''])))))"
    by code_simp
  have n: "length (processCompletedTrades_with ieee_arith enUS_UTC open_position_fills) = 1"
    by code_simp
  from dangling_position_not_emitted [OF s refl e b, of "[]"] s e b n show ?thesis
    by simp
qed

text \<open>
  Which inputs end with an open position depends on the arithmetic. After a buy of 0.0003
  and a sell of 0.0002 the size is 9.999999999999996e-05 in doubles, below the threshold,
  and a trade is pushed; in exact arithmetic it is 1/10000 and the position stays open.
\<close>

lemma boundary_closes_in_doubles:
  "processCompletedTrades_with ieee_arith enUS_UTC
     [mkFill ''X'' SideB ''0.0003'' 0 ''0'', mkFill ''X'' SideA ''0.0002'' 1000 ''5.0''] =
     [\<lparr>trade_coin = ''X'', direction = long, openingTime = ''1/1/1970, 12:00:00 AM'',
       duration = ''0h 0m'', realizedPnL = Fin 5\<rparr>]
   \<and> processCompletedTrades_with exact_arith enUS_UTC
     [mkFill ''X'' SideB ''0.0003'' 0 ''0'', mkFill ''X'' SideA ''0.0002'' 1000 ''5.0''] = []"
  by code_simp

subsection \<open>Successive cycles\<close>



subsection \<open>Order of the input\<close>

text \<open>
  Claim C2, as stated, fails. Two fills of one coin with the same time, given in the two
  possible orders, yield a long trade and a short trade. And with pairwise different
  times: two coins whose positions open within the same second yield their two trades in
  the order in which the coins first occur in the input.
\<close>

theorem permutation_counterexample:
  "processCompletedTrades enUS_UTC
     [mkFill ''X'' SideB ''1'' 0 ''0'', mkFill ''X'' SideA ''1'' 0 ''5.0''] =
     [\<lparr>trade_coin = ''X'', direction = long, openingTime = ''1/1/1970, 12:00:00 AM'',
       duration = ''0h 0m'', realizedPnL = Fin 5\<rparr>]
   \<and> processCompletedTrades enUS_UTC
     [mkFill ''X'' SideA ''1'' 0 ''5.0'', mkFill ''X'' SideB ''1'' 0 ''0''] =
     [\<lparr>trade_coin = ''X'', direction = short, openingTime = ''1/1/1970, 12:00:00 AM'',
       duration = ''0h 0m'', realizedPnL = Fin 5\<rparr>]
   \<and> processCompletedTrades enUS_UTC
     [mkFill ''X'' SideB ''1'' 0 ''0'', mkFill ''X'' SideA ''1'' 100 ''5.0'',
      mkFill ''Y'' SideB ''1'' 500 ''0'', mkFill ''Y'' SideA ''1'' 600 ''7''] =
     [\<lparr>trade_coin = ''X'', direction = long, openingTime = ''1/1/1970, 12:00:00 AM'',
       duration = ''0h 0m'', realizedPnL = Fin 5\<rparr>,
      \<lparr>trade_coin = ''Y'', direction = long, openingTime = ''1/1/1970, 12:00:00 AM'',
       duration = ''0h 0m'', realizedPnL = Fin 7\<rparr>]
   \<and> processCompletedTrades enUS_UTC
     [mkFill ''Y'' SideB ''1'' 500 ''0'', mkFill ''Y'' SideA ''1'' 600 ''7'',
      mkFill ''X'' SideB ''1'' 0 ''0'', mkFill ''X'' SideA ''1'' 100 ''5.0''] =
     [\<lparr>trade_coin = ''Y'', direction = long, openingTime = ''1/1/1970, 12:00:00 AM'',
       duration = ''0h 0m'', realizedPnL = Fin 7\<rparr>,
      \<lparr>trade_coin = ''X'', direction = long, openingTime = ''1/1/1970, 12:00:00 AM'',
       duration = ''0h 0m'', realizedPnL = Fin 5\<rparr>]"
  by code_simp

text \<open>
  Claim C2, amended. When no two fills of the same coin have the same time, every
  permutation of the input yields the same trades as a multiset. It yields the same list
  when, in addition, the opening time strings of the trades all parse on the host, to
  pairwise different time values.
\<close>

theorem permutation_same_trades:
  assumes perm: "mset fills' = mset fills"
    and dist: "distinct (map (\<lambda>f. (coin f, time f)) fills)"
  shows "mset (processCompletedTrades env fills') = mset (processCompletedTrades env fills)
       \<and> (None \<notin> (\<lambda>t. parseDate env (openingTime t)) ` set (processCompletedTrades env fills)
            \<and> distinct (map (\<lambda>t. parseDate env (openingTime t))
                           (processCompletedTrades env fills))
          \<longrightarrow> processCompletedTrades env fills' = processCompletedTrades env fills)"
proof -
  let ?raw = "\<lambda>fs. concat (map (\<lambda>c. processCoin env [] (c, filter (\<lambda>f. coin f = c) fs))
                  (rev (remdups (rev (map coin fs)))))"
  let ?key = "\<lambda>t. - the (parseDate env (openingTime t))"
  have s: "set fills' = set fills"
    using perm by (rule mset_eq_setD)
  have coin_eq: "processCoin env [] (c, filter (\<lambda>f. coin f = c) fills') =
                 processCoin env [] (c, filter (\<lambda>f. coin f = c) fills)" for c
    by (simp add: processCoin_eq sorted_coin_fills_permutation [OF perm dist])
  have m: "mset (processCompletedTrades env fills') = mset (processCompletedTrades env fills)"
    by (simp add: mset_processCompletedTrades s coin_eq)
  have l: "processCompletedTrades env fills' = processCompletedTrades env fills"
    if some: "None \<notin> (\<lambda>t. parseDate env (openingTime t)) ` set (processCompletedTrades env fills)"
      and dk: "distinct (map (\<lambda>t. parseDate env (openingTime t))
                           (processCompletedTrades env fills))"
  proof -
    have mraw: "mset (?raw fills') = mset (?raw fills)"
      using m by (simp add: processCompletedTrades_eq mset_sort_cmp)
    have "mset (?raw fills) = mset (processCompletedTrades env fills)"
      by (simp add: processCompletedTrades_eq mset_sort_cmp)
    then have sraw: "set (?raw fills) = set (processCompletedTrades env fills)"
      by (rule mset_eq_setD)
    from mraw have "set (?raw fills') = set (?raw fills)"
      by (rule mset_eq_setD)
    with sraw have sraw': "set (?raw fills') = set (processCompletedTrades env fills)"
      by simp
    have v: "parseDate env (openingTime t) \<noteq> None" if "t \<in> set (?raw fills)" for t
      using that some unfolding sraw by force
    have v': "parseDate env (openingTime t) \<noteq> None" if "t \<in> set (?raw fills')" for t
      using that some unfolding sraw' by force
    have pk: "inj_on (\<lambda>t. parseDate env (openingTime t)) (set (processCompletedTrades env fills))"
      using dk by (simp add: distinct_map)
    have inj: "inj_on ?key (set (?raw fills'))"
    proof (rule inj_onI)
      fix x y
      assume x: "x \<in> set (?raw fills')" and y: "y \<in> set (?raw fills')"
        and k: "?key x = ?key y"
      from v' [OF x] v' [OF y] obtain a b where
        ab: "parseDate env (openingTime x) = Some a" "parseDate env (openingTime y) = Some b"
        by blast
      with k have "parseDate env (openingTime x) = parseDate env (openingTime y)"
        by simp
      moreover have "x \<in> set (processCompletedTrades env fills)"
        "y \<in> set (processCompletedTrades env fills)"
        using x y unfolding sraw' by simp_all
      ultimately show "x = y"
        using pk by (simp add: inj_on_def)
    qed
    have "processCompletedTrades env fills' = sort_key ?key (?raw fills')"
      unfolding processCompletedTrades_eq by (rule sort_compareOpeningTime) (rule v')
    also have "\<dots> = sort_key ?key (?raw fills)"
    proof (rule sort_key_inj_key_eq)
      show "mset (?raw fills') = mset (sort_key ?key (?raw fills))"
        using mraw by simp
      show "inj_on ?key (set (?raw fills'))"
        by (rule inj)
      show "sorted (map ?key (sort_key ?key (?raw fills)))"
        by simp
    qed
    also have "\<dots> = processCompletedTrades env fills"
      unfolding processCompletedTrades_eq by (rule sort_compareOpeningTime [symmetric]) (rule v)
    finally show ?thesis .
  qed
  from m l show ?thesis by blast
qed

theorem permutation_same_trades_witness:
  "mset (rev two_coin_fills) = mset two_coin_fills
   \<and> distinct (map (\<lambda>f. (coin f, time f)) two_coin_fills)
   \<and> processCompletedTrades enUS_UTC two_coin_fills =
       [\<lparr>trade_coin = ''Y'', direction = short, openingTime = ''1/1/1970, 12:00:02 AM'',
         duration = ''0h 0m'', realizedPnL = Fin 7\<rparr>,
        \<lparr>trade_coin = ''X'', direction = long, openingTime = ''1/1/1970, 12:00:00 AM'',
         duration = ''0h 0m'', realizedPnL = Fin 5\<rparr>]
   \<and> processCompletedTrades enUS_UTC (rev two_coin_fills) = processCompletedTrades enUS_UTC two_coin_fills"
proof -
  have d: "distinct (map (\<lambda>f. (coin f, time f)) two_coin_fills)"
    by (simp add: two_coin_fills_def mkFill_def)
  have m: "mset (rev two_coin_fills) = mset two_coin_fills"
    by simp
  have v: "processCompletedTrades enUS_UTC two_coin_fills =
       [\<lparr>trade_coin = ''Y'', direction = short, openingTime = ''1/1/1970, 12:00:02 AM'',
         duration = ''0h 0m'', realizedPnL = Fin 7\<rparr>,
        \<lparr>trade_coin = ''X'', direction = long, openingTime = ''1/1/1970, 12:00:00 AM'',
         duration = ''0h 0m'', realizedPnL = Fin 5\<rparr>]"
    by code_simp
  have k: "parseDate enUS_UTC ''1/1/1970, 12:00:02 AM'' = Some 2000"
    "parseDate enUS_UTC ''1/1/1970, 12:00:00 AM'' = Some 0"
    by code_simp+
  have "None \<notin> (\<lambda>t. parseDate enUS_UTC (openingTime t)) ` set (processCompletedTrades enUS_UTC two_coin_fills)
      \<and> distinct (map (\<lambda>t. parseDate enUS_UTC (openingTime t))
                           (processCompletedTrades enUS_UTC two_coin_fills))"
    unfolding v by (simp add: k)
  with permutation_same_trades [OF m d, of enUS_UTC]
  have "processCompletedTrades enUS_UTC (rev two_coin_fills) = processCompletedTrades enUS_UTC two_coin_fills"
    by blast
  with m d v show ?thesis by blast
qed

subsection \<open>Order of the output\<close>

text \<open>
  What the final sort achieves: when the opening time string of every returned trade
  parses on the host, the result is in decreasing order of the parsed values.
\<close>

lemma processCompletedTrades_sorted:
  assumes "None \<notin> (\<lambda>t. parseDate env (openingTime t)) ` set (processCompletedTrades env fills)"
  shows "sorted (map (\<lambda>t. - the (parseDate env (openingTime t)))
                   (processCompletedTrades env fills))"
proof -
  let ?raw = "concat (map (\<lambda>c. processCoin env [] (c, filter (\<lambda>f. coin f = c) fills))
                  (rev (remdups (rev (map coin fills)))))"
  have "mset ?raw = mset (processCompletedTrades env fills)"
    by (simp add: processCompletedTrades_eq mset_sort_cmp)
  then have "set ?raw = set (processCompletedTrades env fills)"
    by (rule mset_eq_setD)
  with assms have "parseDate env (openingTime t) \<noteq> None" if "t \<in> set ?raw" for t
    using that by force
  then have "processCompletedTrades env fills =
      sort_key (\<lambda>t. - the (parseDate env (openingTime t))) ?raw"
    unfolding processCompletedTrades_eq by (rule sort_compareOpeningTime)
  then show ?thesis by simp
qed

text \<open>
  Claim C4 at a failing input. Under the en-US locale the opening time is rendered to the
  second, so a position opened at 1700000000000 and one opened 500 ms later carry the same
  string; the comparator answers 0 and the trades stay in the order in which they were
  pushed: the BTC trade, opened first, comes before the ETH trade, opened last.
\<close>

theorem opening_time_order_failing_input:
  "processCompletedTrades enUS_UTC
     [mkFill ''BTC'' SideB ''1'' 1700000000000 ''0'',
      mkFill ''BTC'' SideA ''1'' 1700000000100 ''5.0'',
      mkFill ''ETH'' SideB ''1'' 1700000000500 ''0'',
      mkFill ''ETH'' SideA ''1'' 1700000000600 ''7''] =
     [\<lparr>trade_coin = ''BTC'', direction = long, openingTime = ''11/14/2023, 10:13:20 PM'',
       duration = ''0h 0m'', realizedPnL = Fin 5\<rparr>,
      \<lparr>trade_coin = ''ETH'', direction = long, openingTime = ''11/14/2023, 10:13:20 PM'',
       duration = ''0h 0m'', realizedPnL = Fin 7\<rparr>]"
  by code_simp

subsection \<open>Fields that are never read\<close>

lemma readFields_read [simp]:
  "coin (readFields f) = coin f" "sz (readFields f) = sz f" "side (readFields f) = side f"
  "time (readFields f) = time f" "closedPnl (readFields f) = closedPnl f"
  by (simp_all add: readFields_def)

lemma applyFill_readFields [simp]: "applyFill p (readFields f) = applyFill p f"
  by (simp add: applyFill_def isLong_def fillSize_def fillClosedPnl_def Let_def)

lemma closeTrade_readFields [simp]: "closeTrade env c p (readFields f) = closeTrade env c p f"
  by (simp add: closeTrade_def)

lemma emitted_readFields: "emitted env c p (map readFields fs) = emitted env c p fs"
  by (induction fs arbitrary: p) simp_all

lemma insort_key_map:
  assumes "\<And>x. k (g x) = k x"
  shows "insort_key k (g x) (map g ys) = map g (insort_key k x ys)"
  by (induction ys) (simp_all add: assms)

lemma sort_key_map:
  assumes "\<And>x. k (g x) = k x"
  shows "sort_key k (map g xs) = map g (sort_key k xs)"
  by (induction xs) (simp_all add: insort_key_map assms)

lemma processCoin_readFields:
  "processCoin env [] (c, map readFields fs) = processCoin env [] (c, fs)"
  by (simp add: processCoin_eq sort_key_map emitted_readFields)

lemma processCompletedTrades_readFields:
  "processCompletedTrades env (map readFields fs) = processCompletedTrades env fs"
proof -
  have "filter (\<lambda>f. coin f = c) (map readFields fs) =
        map readFields (filter (\<lambda>f. coin f = c) fs)" for c
    by (simp add: filter_map comp_def)
  then show ?thesis
    by (simp add: processCompletedTrades_eq comp_def processCoin_readFields)
qed

lemma readFields_agree:
  assumes "coin f = coin g" "sz f = sz g" "side f = side g" "time f = time g"
    "closedPnl f = closedPnl g"
  shows "readFields f = readFields g"
  using assms by (cases f, cases g) (simp add: readFields_def)

text \<open>
  Claim C10. Two fill lists of the same length whose fills agree, position by position,
  on \<open>coin\<close>, \<open>sz\<close>, \<open>side\<close>, \<open>time\<close> and \<open>closedPnl\<close> yield the same result: the
  fields \<open>px\<close>, \<open>fee\<close>, \<open>oid\<close>, \<open>hash\<close>, \<open>dir\<close>, \<open>crossed\<close> and \<open>startPosition\<close> are
  never read.
\<close>

theorem unread_fields_irrelevant:
  assumes "list_all2 (\<lambda>f g. coin f = coin g \<and> sz f = sz g \<and> side f = side g
                          \<and> time f = time g \<and> closedPnl f = closedPnl g) fills fills'"
  shows "processCompletedTrades env fills = processCompletedTrades env fills'"
proof -
  from assms have "list_all2 (\<lambda>f g. readFields f = readFields g) fills fills'"
    by (rule list_all2_mono) (blast intro: readFields_agree)
  then have "map readFields fills = map readFields fills'"
    by (induction rule: list_all2_induct) simp_all
  then have "processCompletedTrades env (map readFields fills) =
             processCompletedTrades env (map readFields fills')"
    by simp
  then show ?thesis
    by (simp only: processCompletedTrades_readFields)
qed

theorem unread_fields_irrelevant_witness:
  "list_all2 (\<lambda>f g. coin f = coin g \<and> sz f = sz g \<and> side f = side g
                    \<and> time f = time g \<and> closedPnl f = closedPnl g) sample_fills sample_fills_other
   \<and> map px sample_fills = [''1'', ''1''] \<and> map px sample_fills_other = [''29.45'', ''29.45'']
   \<and> processCompletedTrades enUS_UTC sample_fills = processCompletedTrades enUS_UTC sample_fills_other"
proof -
  have a: "list_all2 (\<lambda>f g. coin f = coin g \<and> sz f = sz g \<and> side f = side g
                    \<and> time f = time g \<and> closedPnl f = closedPnl g) sample_fills sample_fills_other"
    by (simp add: sample_fills_def sample_fills_other_def mkFill_def)
  have b: "map px sample_fills = [''1'', ''1'']" "map px sample_fills_other = [''29.45'', ''29.45'']"
    by (simp_all add: sample_fills_def sample_fills_other_def mkFill_def)
  from unread_fields_irrelevant [OF a, of enUS_UTC] a b show ?thesis
    by blast
qed

end
